theory Spec2Isabelle
  imports Complex_Main "HOL-Library.Multiset" "HOL-Library.Sublist"
begin

section \<open>Similarity search and scoring engine\<close>

text \<open>
  The development follows the TypeScript sources \<^verbatim>\<open>clipEmbedding\<close>, \<^verbatim>\<open>vectorStore\<close>,
  \<^verbatim>\<open>pHashService\<close> and \<^verbatim>\<open>imageSimilarityService\<close>.  A JavaScript \<^verbatim>\<open>number\<close> that carries
  a score or a pixel value is a \<^typ>\<open>real\<close> (exact arithmetic: rounding and overflow of IEEE
  doubles are not part of the model), a count is a \<^typ>\<open>nat\<close>, a string is a \<^typ>\<open>string\<close>,
  and a \<^verbatim>\<open>throw\<close> or a rejected promise is the \<open>Inl\<close> branch of a sum.  The cosine
  similarity and the top-N query are given a second time over numbers that overflow to an
  infinity and have a \<^verbatim>\<open>NaN\<close>: what is stated of the values they return is stated of these.
\<close>

subsection \<open>Errors\<close>

datatype error =
    DimensionMismatch      \<comment> \<open>\<^verbatim>\<open>Error('Vectors must have the same length')\<close>\<close>
  | StoreUnavailable       \<comment> \<open>\<^verbatim>\<open>Error('Database not initialized')\<close> or a failed request\<close>
  | EmbeddingUnavailable   \<comment> \<open>the CLIP pipeline failed to load or to embed\<close>
  | ImageLoadFailed        \<comment> \<open>\<^verbatim>\<open>Error('Failed to load image')\<close>, no canvas context\<close>
  | TypeError              \<comment> \<open>\<^verbatim>\<open>reduce\<close> of an empty array without initial value\<close>

subsection \<open>clipEmbedding: cosine similarity\<close>

definition dot :: "real list \<Rightarrow> real list \<Rightarrow> real" where
  "dot a b = (\<Sum>i\<leftarrow>[0..<length a]. a ! i * b ! i)"

definition normA :: "real list \<Rightarrow> real" where
  "normA a = (\<Sum>i\<leftarrow>[0..<length a]. a ! i * a ! i)"

definition denominator :: "real list \<Rightarrow> real list \<Rightarrow> real" where
  "denominator a b = sqrt (normA a) * sqrt (normA b)"

definition cosineSimilarity :: "real list \<Rightarrow> real list \<Rightarrow> error + real" where
  "cosineSimilarity a b =
     (if length a \<noteq> length b then Inl DimensionMismatch
      else if denominator a b = 0 then Inr 0
      else Inr (dot a b / denominator a b))"

subsection \<open>vectorStore: records and the top-N query\<close>

record ImageRecord =
  rid :: string
  embedding :: "real list"
  pHash :: string
  accountName :: string
  accountHandle :: string
  eventName :: "string option"
  imageUrl :: "string option"
  createdAt :: nat

record SearchResult = ImageRecord +
  clipScore :: real

text \<open>
  The outcome of \<^verbatim>\<open>await this.getAll()\<close>: the stored records, or the error with which
  the database handle or the read request failed.
\<close>

type_synonym stored = "error + ImageRecord list"

definition withScore :: "ImageRecord \<Rightarrow> real \<Rightarrow> SearchResult" where
  "withScore r s =
     \<lparr> rid = rid r, embedding = embedding r, pHash = pHash r,
       accountName = accountName r, accountHandle = accountHandle r,
       eventName = eventName r, imageUrl = imageUrl r, createdAt = createdAt r,
       clipScore = s \<rparr>"

text \<open>\<^verbatim>\<open>all.map(record => ({...record, clipScore: cosineSimilarity(q, record.embedding)}))\<close>:
  the first record whose similarity throws aborts the whole map.\<close>

fun scoreAll :: "real list \<Rightarrow> ImageRecord list \<Rightarrow> error + SearchResult list" where
  "scoreAll q [] = Inr []"
| "scoreAll q (r # rs) =
     (case cosineSimilarity q (embedding r) of
        Inl e \<Rightarrow> Inl e
      | Inr s \<Rightarrow> (case scoreAll q rs of
                   Inl e \<Rightarrow> Inl e
                 | Inr ss \<Rightarrow> Inr (withScore r s # ss)))"

text \<open>\<^verbatim>\<open>xs.slice(0, e)\<close> for an integer \<open>e\<close>: a negative end counts from the end of the array.\<close>

definition slice0 :: "'a list \<Rightarrow> int \<Rightarrow> 'a list" where
  "slice0 xs e = (if e < 0 then take (nat (int (length xs) + e)) xs else take (nat e) xs)"

text \<open>\<^verbatim>\<open>sort((a, b) => b.clipScore - a.clipScore)\<close>: the stable sort by descending score,
  which is what the comparator gives as long as no score is \<^verbatim>\<open>NaN\<close>, as none is over the
  reals.\<close>

definition sortByClipScore :: "SearchResult list \<Rightarrow> SearchResult list" where
  "sortByClipScore scored = sort_key (\<lambda>r. - clipScore r) scored"

text \<open>The count \<open>topN\<close> is an integer passed by the caller (the source defaults it to 10, and
  the search passes \<open>TOP_N_SEARCH\<close>).\<close>

definition searchByEmbedding :: "stored \<Rightarrow> real list \<Rightarrow> int \<Rightarrow> error + SearchResult list" where
  "searchByEmbedding st queryEmbedding topN =
     (case st of
        Inl e \<Rightarrow> Inl e
      | Inr all \<Rightarrow>
          if length all = 0 then Inr []
          else (case scoreAll queryEmbedding all of
                  Inl e \<Rightarrow> Inl e
                | Inr scored \<Rightarrow> Inr (slice0 (sortByClipScore scored) topN)))"

subsection \<open>pHashService: hexadecimal and binary strings\<close>

text \<open>\<^verbatim>\<open>parseInt(char, 16)\<close> on one character: its value as a hexadecimal digit of either
  case, \<open>None\<close> standing for \<^verbatim>\<open>NaN\<close>.\<close>

definition parseInt16 :: "char \<Rightarrow> nat option" where
  "parseInt16 c =
     (let n = (of_char c :: nat) in
      if 48 \<le> n \<and> n \<le> 57 then Some (n - 48)
      else if 97 \<le> n \<and> n \<le> 102 then Some (n - 87)
      else if 65 \<le> n \<and> n \<le> 70 then Some (n - 55)
      else None)"

fun toString2 :: "nat \<Rightarrow> string" where
  "toString2 n =
     (if n < 2 then [if n = 0 then CHR ''0'' else CHR ''1'']
      else toString2 (n div 2) @ [if n mod 2 = 0 then CHR ''0'' else CHR ''1''])"

definition hexDigit :: "nat \<Rightarrow> char" where
  "hexDigit d = ''0123456789abcdef'' ! d"

fun toString16 :: "nat \<Rightarrow> string" where
  "toString16 n =
     (if n < 16 then [hexDigit n] else toString16 (n div 16) @ [hexDigit (n mod 16)])"

declare toString2.simps [simp del] toString16.simps [simp del]

text \<open>\<^verbatim>\<open>Number.prototype.toString(radix)\<close> of a non-negative integer or of \<^verbatim>\<open>NaN\<close>.\<close>

definition numToString2 :: "nat option \<Rightarrow> string" where
  "numToString2 v = (case v of None \<Rightarrow> ''NaN'' | Some n \<Rightarrow> toString2 n)"

definition numToString16 :: "nat option \<Rightarrow> string" where
  "numToString16 v = (case v of None \<Rightarrow> ''NaN'' | Some n \<Rightarrow> toString16 n)"

definition padStart :: "nat \<Rightarrow> char \<Rightarrow> string \<Rightarrow> string" where
  "padStart n c s = replicate (n - length s) c @ s"

definition padEnd :: "nat \<Rightarrow> char \<Rightarrow> string \<Rightarrow> string" where
  "padEnd n c s = s @ replicate (n - length s) c"

definition isBinaryDigit :: "char \<Rightarrow> bool" where
  "isBinaryDigit c = (c = CHR ''0'' \<or> c = CHR ''1'')"

text \<open>\<^verbatim>\<open>parseInt(chunk, 2)\<close> on a chunk without leading blanks or sign, which is all that
  \<^verbatim>\<open>binaryToHex\<close> is given: the value of the longest prefix of binary digits, \<^verbatim>\<open>NaN\<close> when
  that prefix is empty.\<close>

definition parseInt2 :: "string \<Rightarrow> nat option" where
  "parseInt2 s =
     (let ds = takeWhile isBinaryDigit s in
      if ds = [] then None
      else Some (foldl (\<lambda>acc c. 2 * acc + (if c = CHR ''1'' then 1 else 0)) 0 ds))"

function binaryToHex :: "string \<Rightarrow> string" where
  "binaryToHex binary =
     (if binary = [] then []
      else numToString16 (parseInt2 (padEnd 4 (CHR ''0'') (take 4 binary)))
             @ binaryToHex (drop 4 binary))"
  by pat_completeness auto
termination
  by (relation "measure length") auto

declare binaryToHex.simps [simp del]

text \<open>The four binary digits appended for one character of the hash.\<close>

definition hexBits :: "char \<Rightarrow> string" where
  "hexBits c = padStart 4 (CHR ''0'') (numToString2 (parseInt16 c))"

definition hexToBinary :: "string \<Rightarrow> string" where
  "hexToBinary hex = concat (map hexBits hex)"

text \<open>The digits that \<^verbatim>\<open>toString(16)\<close> writes, of which every computed hash consists.\<close>

definition lowerHex :: "char set" where
  "lowerHex = set ''0123456789abcdef''"

subsection \<open>pHashService: Hamming distance and similarity\<close>

text \<open>\<^verbatim>\<open>bin[i] || '0'\<close>: a position past the end of the string reads as \<^verbatim>\<open>'0'\<close>.\<close>

definition bitAt :: "string \<Rightarrow> nat \<Rightarrow> char" where
  "bitAt bin i = (if i < length bin then bin ! i else CHR ''0'')"

definition hammingDistance :: "string \<Rightarrow> string \<Rightarrow> nat" where
  "hammingDistance hash1 hash2 =
     (let bin1 = hexToBinary hash1; bin2 = hexToBinary hash2;
          len = max (length bin1) (length bin2)
      in length (filter (\<lambda>i. bitAt bin1 i \<noteq> bitAt bin2 i) [0..<len]))"

definition pHashSimilarity :: "string \<Rightarrow> string \<Rightarrow> real" where
  "pHashSimilarity hash1 hash2 = 1 - real (hammingDistance hash1 hash2) / 64"

subsection \<open>pHashService: discrete cosine transform and the hash\<close>

definition dctSum :: "real list list \<Rightarrow> nat \<Rightarrow> nat \<Rightarrow> nat \<Rightarrow> real" where
  "dctSum pixels sz u v =
     (\<Sum>x\<leftarrow>[0..<sz]. \<Sum>y\<leftarrow>[0..<sz].
        pixels ! x ! y
          * cos (real (2 * x + 1) * real u * pi / real (2 * sz))
          * cos (real (2 * y + 1) * real v * pi / real (2 * sz)))"

definition computeDCT :: "real list list \<Rightarrow> nat \<Rightarrow> real list list" where
  "computeDCT pixels sz =
     map (\<lambda>u. map (\<lambda>v.
            let cu = (if u = 0 then 1 / sqrt 2 else 1);
                cv = (if v = 0 then 1 / sqrt 2 else 1)
            in 0.25 * cu * cv * dctSum pixels sz u v) [0..<sz]) [0..<sz]"

text \<open>The luminance of the pixel at row \<open>y\<close>, column \<open>x\<close> of the RGBA canvas data.\<close>

definition grayPixels :: "nat list \<Rightarrow> nat \<Rightarrow> real list list" where
  "grayPixels imageData sz =
     map (\<lambda>y. map (\<lambda>x.
            let idx = (y * sz + x) * 4
            in 0.299 * real (imageData ! idx)
               + 0.587 * real (imageData ! (idx + 1))
               + 0.114 * real (imageData ! (idx + 2))) [0..<sz]) [0..<sz]"

text \<open>The coefficients of the top-left 8 by 8 block in row-major order, the DC term left out.\<close>

definition lowFreq :: "real list list \<Rightarrow> real list" where
  "lowFreq dctResult =
     concat (map (\<lambda>y. map (\<lambda>x. dctResult ! y ! x)
                          (filter (\<lambda>x. \<not> (y = 0 \<and> x = 0)) [0..<8])) [0..<8])"

text \<open>\<^verbatim>\<open>sorted[Math.floor(sorted.length / 2)]\<close> of the ascending sort.\<close>

definition median :: "real list \<Rightarrow> real" where
  "median vals = sort vals ! (length vals div 2)"

definition hashBits :: "real list \<Rightarrow> string" where
  "hashBits vals = map (\<lambda>val. if val > median vals then CHR ''1'' else CHR ''0'') vals"

text \<open>The body of \<^verbatim>\<open>computePHash\<close> from the grayscale matrix on.\<close>

definition computePHashGray :: "real list list \<Rightarrow> string" where
  "computePHashGray gray =
     (let dctResult = computeDCT gray 32;
          hash = hashBits (lowFreq dctResult)
      in binaryToHex (take 64 (padEnd 64 (CHR ''0'') hash)))"

text \<open>\<^verbatim>\<open>computePHash\<close>: the argument is the outcome of decoding the image and reading the
  32 by 32 canvas (4096 bytes of RGBA data), or the error that rejected the promise.\<close>

definition computePHash :: "error + nat list \<Rightarrow> error + string" where
  "computePHash decoded =
     (case decoded of
        Inl e \<Rightarrow> Inl e
      | Inr imageData \<Rightarrow> Inr (computePHashGray (grayPixels imageData 32)))"

subsection \<open>vectorStore: the accounts of the index\<close>

record Account =
  name :: string
  handle :: string
  acount :: nat

text \<open>One step of the loop of \<^verbatim>\<open>getUniqueAccounts\<close> over its insertion-ordered
  \<^verbatim>\<open>Map\<close>, kept as the list of its values: an account seen before is counted up in
  place, a new one goes to the end.\<close>

fun countRecord :: "Account list \<Rightarrow> ImageRecord \<Rightarrow> Account list" where
  "countRecord [] r = [\<lparr> name = accountName r, handle = accountHandle r, acount = 1 \<rparr>]"
| "countRecord (a # as) r =
     (if handle a = accountHandle r then a\<lparr> acount := acount a + 1 \<rparr> # as
      else a # countRecord as r)"

definition getUniqueAccounts :: "stored \<Rightarrow> error + Account list" where
  "getUniqueAccounts st =
     (case st of
        Inl e \<Rightarrow> Inl e
      | Inr all \<Rightarrow> Inr (sort_key (\<lambda>a. - int (acount a)) (foldl countRecord [] all)))"

subsection \<open>imageSimilarityService: scoring and aggregation\<close>

record Scores =
  clip :: real
  pHashS :: real
  metadata :: real
  frequency :: real

record ScoredCandidate =
  candName :: string
  candHandle :: string
  scores :: Scores
  totalScore :: real
  matchedImages :: "(string \<times> real) list"
  imageCount :: nat

datatype status = Initializing | ExtractingEmbedding | Searching | Scoring | Done

text \<open>The messages of the progress reports, by their place in the source; the one that
  announces the candidates carries their number.\<close>

datatype message =
    ModelPreparing | ModelReady | Extracting | Extracted | SearchingImages
  | NoCandidates | Found nat | ComputingScores | Completed

record SearchProgress =
  pstatus :: status
  progress :: nat
  pmessage :: message

definition W_clip :: real where "W_clip = 0.50"
definition W_pHash :: real where "W_pHash = 0.30"
definition W_metadata :: real where "W_metadata = 0.15"
definition W_frequency :: real where "W_frequency = 0.05"

definition TOP_N_SEARCH :: int where "TOP_N_SEARCH = 50"

text \<open>An entry of the \<^verbatim>\<open>images\<close> array of an account.\<close>

record Image =
  imgId :: string
  imgClipScore :: real
  pHashScore :: real
  metadataBonus :: real

record AccountData =
  dataName :: string
  dataHandle :: string
  images :: "Image list"

text \<open>A string is truthy when it is present and not empty.\<close>

definition truthy :: "string option \<Rightarrow> bool" where
  "truthy s = (case s of None \<Rightarrow> False | Some t \<Rightarrow> t \<noteq> [])"

text \<open>\<^verbatim>\<open>s.includes(t)\<close>: \<open>t\<close> occurs in \<open>s\<close> as a contiguous substring.\<close>

definition includesStr :: "string \<Rightarrow> string \<Rightarrow> bool" where
  "includesStr s t = list_ex (\<lambda>i. take (length t) (drop i s) = t) [0..<Suc (length s)]"

definition metadataBonusOf :: "string option \<Rightarrow> string option \<Rightarrow> real" where
  "metadataBonusOf evName candEvent =
     (if truthy evName \<and> truthy candEvent then
        (if candEvent = evName then 0.2
         else if includesStr (the candEvent) (the evName) \<or> includesStr (the evName) (the candEvent)
           then 0.1
         else 0)
      else 0)"

text \<open>The accumulation into \<^verbatim>\<open>accountMap\<close>, an insertion-ordered \<^verbatim>\<open>Map\<close> kept as the
  list of its entries: the image is pushed to the entry of its key, which is created at the
  end when the key is new.\<close>

fun pushImage :: "(string \<times> AccountData) list \<Rightarrow> string \<Rightarrow> string \<Rightarrow> Image
    \<Rightarrow> (string \<times> AccountData) list" where
  "pushImage [] key nm img = [(key, \<lparr> dataName = nm, dataHandle = key, images = [img] \<rparr>)]"
| "pushImage ((k, d) # m) key nm img =
     (if k = key then (k, d\<lparr> images := images d @ [img] \<rparr>) # m
      else (k, d) # pushImage m key nm img)"

definition candidateImage :: "string \<Rightarrow> string option \<Rightarrow> SearchResult \<Rightarrow> Image" where
  "candidateImage queryHash evName candidate =
     \<lparr> imgId = rid candidate, imgClipScore = clipScore candidate,
       pHashScore = pHashSimilarity queryHash (pHash candidate),
       metadataBonus = metadataBonusOf evName (eventName candidate) \<rparr>"

definition groupCandidates :: "string \<Rightarrow> string option \<Rightarrow> SearchResult list
    \<Rightarrow> (string \<times> AccountData) list" where
  "groupCandidates queryHash evName candidates =
     foldl (\<lambda>m candidate.
              pushImage m (accountHandle candidate) (accountName candidate)
                (candidateImage queryHash evName candidate))
       [] candidates"


definition imageScore :: "Image \<Rightarrow> real" where
  "imageScore img =
     imgClipScore img * W_clip + pHashScore img * W_pHash + metadataBonus img * W_metadata"

text \<open>\<^verbatim>\<open>images.reduce((best, img) => score > bestScore ? img : best)\<close> without an initial
  value: the first image starts, a later one replaces it only with a strictly higher score.\<close>

definition bestImage :: "Image list \<Rightarrow> error + Image" where
  "bestImage imgs =
     (case imgs of
        [] \<Rightarrow> Inl TypeError
      | i # is \<Rightarrow> Inr (foldl (\<lambda>best img. if imageScore img > imageScore best then img else best) i is))"

text \<open>\<^verbatim>\<open>new Map(uniqueAccounts.map(a => [a.handle, a.count]))\<close>: of two entries with one
  key the later one stands.\<close>

definition accountCountMap :: "Account list \<Rightarrow> string \<Rightarrow> nat option" where
  "accountCountMap uniqueAccounts = map_of (rev (map (\<lambda>a. (handle a, acount a)) uniqueAccounts))"

definition maxCount :: "Account list \<Rightarrow> nat" where
  "maxCount uniqueAccounts = fold max (map acount uniqueAccounts) 1"

text \<open>\<^verbatim>\<open>accountCountMap.get(handle) || 1\<close>: a missing or zero count is 1.\<close>

definition imageCountOf :: "Account list \<Rightarrow> string \<Rightarrow> nat" where
  "imageCountOf uniqueAccounts h =
     (case accountCountMap uniqueAccounts h of
        None \<Rightarrow> 1
      | Some c \<Rightarrow> if c = 0 then 1 else c)"

definition frequencyBonus :: "Account list \<Rightarrow> string \<Rightarrow> real" where
  "frequencyBonus uniqueAccounts h =
     (real (imageCountOf uniqueAccounts h) / real (maxCount uniqueAccounts)) * 0.1"

definition scoreAccount :: "Account list \<Rightarrow> string \<times> AccountData \<Rightarrow> error + ScoredCandidate" where
  "scoreAccount uniqueAccounts entry =
     (case entry of (h, d) \<Rightarrow>
        (case bestImage (images d) of
           Inl e \<Rightarrow> Inl e
         | Inr best \<Rightarrow>
             Inr \<lparr> candName = dataName d, candHandle = dataHandle d,
                   scores = \<lparr> clip = imgClipScore best, pHashS = pHashScore best,
                              metadata = metadataBonus best,
                              frequency = frequencyBonus uniqueAccounts h \<rparr>,
                   totalScore =
                     imgClipScore best * W_clip + pHashScore best * W_pHash
                       + metadataBonus best * W_metadata
                       + frequencyBonus uniqueAccounts h * W_frequency,
                   matchedImages = map (\<lambda>img. (imgId img, imgClipScore img)) (images d),
                   imageCount = imageCountOf uniqueAccounts h \<rparr>))"

text \<open>The loop over the entries of \<^verbatim>\<open>accountMap\<close>: the first entry that throws aborts it.\<close>

fun scoreAccounts :: "Account list \<Rightarrow> (string \<times> AccountData) list \<Rightarrow> error + ScoredCandidate list" where
  "scoreAccounts ua [] = Inr []"
| "scoreAccounts ua (entry # m) =
     (case scoreAccount ua entry of
        Inl e \<Rightarrow> Inl e
      | Inr c \<Rightarrow> (case scoreAccounts ua m of
                   Inl e \<Rightarrow> Inl e
                 | Inr cs \<Rightarrow> Inr (c # cs)))"

definition scoreAndAggregate :: "stored \<Rightarrow> SearchResult list \<Rightarrow> real list \<Rightarrow> string
    \<Rightarrow> string option \<Rightarrow> error + ScoredCandidate list" where
  "scoreAndAggregate st candidates queryEmbedding queryHash evName =
     (case getUniqueAccounts st of
        Inl e \<Rightarrow> Inl e
      | Inr uniqueAccounts \<Rightarrow>
          (case scoreAccounts uniqueAccounts (groupCandidates queryHash evName candidates) of
             Inl e \<Rightarrow> Inl e
           | Inr results \<Rightarrow> Inr (sort_key (\<lambda>c. - totalScore c) results)))"

subsection \<open>imageSimilarityService: the search\<close>

text \<open>What the collaborators of one \<^verbatim>\<open>findSimilarAccounts\<close> call answer: whether the CLIP
  pipeline is ready, how \<^verbatim>\<open>initCLIP\<close> ends when it is not, the embedding of the query image,
  the decoded query image, and the index.\<close>

record SearchEnv =
  isCLIPReady :: bool
  initCLIPOutcome :: "error + unit"
  getImageEmbedding :: "error + real list"
  decodedImage :: "error + nat list"
  index :: stored

definition report :: "status \<Rightarrow> nat \<Rightarrow> message \<Rightarrow> SearchProgress" where
  "report s p m = \<lparr> pstatus = s, progress = p, pmessage = m \<rparr>"

text \<open>The result is the sequence of reports handed to \<^verbatim>\<open>onProgress\<close> and the value or the
  error of the promise.\<close>

definition findSimilarAccounts :: "SearchEnv \<Rightarrow> string option
    \<Rightarrow> SearchProgress list \<times> (error + ScoredCandidate list)" where
  "findSimilarAccounts env evName =
     (let log0 = [report Initializing 0 ModelPreparing] in
      case (if isCLIPReady env then Inr () else initCLIPOutcome env) of
        Inl e \<Rightarrow> (log0, Inl e)
      | Inr _ \<Rightarrow>
          let log1 = log0 @ [report Initializing 20 ModelReady,
                              report ExtractingEmbedding 30 Extracting] in
          (case getImageEmbedding env of
             Inl e \<Rightarrow> (log1, Inl e)
           | Inr queryEmb \<Rightarrow>
               let log2 = log1 @ [report ExtractingEmbedding 50 Extracted] in
               (case computePHash (decodedImage env) of
                  Inl e \<Rightarrow> (log2, Inl e)
                | Inr queryHash \<Rightarrow>
                    let log3 = log2 @ [report Searching 55 SearchingImages] in
                    (case searchByEmbedding (index env) queryEmb TOP_N_SEARCH of
                       Inl e \<Rightarrow> (log3, Inl e)
                     | Inr candidates \<Rightarrow>
                         if length candidates = 0
                         then (log3 @ [report Done 100 NoCandidates], Inr [])
                         else
                           let log4 = log3 @ [report Searching 70 (Found (length candidates)),
                                               report Scoring 75 ComputingScores] in
                           (case scoreAndAggregate (index env) candidates queryEmb queryHash evName of
                              Inl e \<Rightarrow> (log4, Inl e)
                            | Inr scored \<Rightarrow> (log4 @ [report Done 100 Completed], Inr scored))))))"

subsection \<open>The orthonormal DCT-II of the specification\<close>

text \<open>The two-dimensional DCT of type II over an \<open>N\<close> by \<open>N\<close> matrix, orthonormalised:
  each dimension carries the factor \<open>sqrt (2 / N)\<close> and the weight \<open>C 0 = 1 / sqrt 2\<close>,
  \<open>C k = 1\<close> for \<open>k > 0\<close>.\<close>

definition dctC :: "nat \<Rightarrow> real" where
  "dctC k = (if k = 0 then 1 / sqrt 2 else 1)"

definition dctBasis :: "nat \<Rightarrow> nat \<Rightarrow> nat \<Rightarrow> real" where
  "dctBasis N k x = sqrt (2 / real N) * dctC k * cos (real (2 * x + 1) * real k * pi / real (2 * N))"

definition orthonormalDCT :: "nat \<Rightarrow> real list list \<Rightarrow> nat \<Rightarrow> nat \<Rightarrow> real" where
  "orthonormalDCT N pixels u v =
     (\<Sum>x\<leftarrow>[0..<N]. \<Sum>y\<leftarrow>[0..<N]. pixels ! x ! y * dctBasis N u x * dctBasis N v y)"

subsection \<open>Lazy initialisation under the event loop\<close>

text \<open>
  JavaScript runs each call and each callback to its next \<^verbatim>\<open>await\<close> without interruption,
  and neither initialiser awaits between reading and writing its fields.  So concurrent
  callers are an interleaving of atomic events: a call of the initialiser, and the completion
  (success or failure) of the request in flight.  A promise is known by the number of the attempt
  that created it.  A caller is answered \<open>Ready\<close> when the initialiser returns at once, and
  \<open>Pending p\<close> when it is handed the promise of attempt \<open>p\<close>.
\<close>

datatype answer = Ready | Pending nat

datatype event = CallInit | Success | Failure

text \<open>\<^verbatim>\<open>VectorStore\<close>: the fields \<^verbatim>\<open>db\<close> and \<^verbatim>\<open>initPromise\<close>, the number of
  \<^verbatim>\<open>indexedDB.open\<close> requests issued, and whether the last one still awaits its
  \<^verbatim>\<open>onsuccess\<close> or \<^verbatim>\<open>onerror\<close>.\<close>

record VectorStore =
  db :: bool
  initPromise :: "nat option"
  opened :: nat
  openPending :: bool

definition newVectorStore :: VectorStore where
  "newVectorStore = \<lparr> db = False, initPromise = None, opened = 0, openPending = False \<rparr>"

definition init :: "VectorStore \<Rightarrow> VectorStore \<times> answer" where
  "init s =
     (if db s then (s, Ready)
      else (case initPromise s of
              Some p \<Rightarrow> (s, Pending p)
            | None \<Rightarrow>
                (s\<lparr> initPromise := Some (opened s), opened := Suc (opened s),
                    openPending := True \<rparr>,
                 Pending (opened s))))"

fun storeStep :: "VectorStore \<times> answer list \<Rightarrow> event \<Rightarrow> VectorStore \<times> answer list" where
  "storeStep (s, as) CallInit = (case init s of (s', a) \<Rightarrow> (s', as @ [a]))"
| "storeStep (s, as) Success =
     (if openPending s then (s\<lparr> db := True, openPending := False \<rparr>, as) else (s, as))"
| "storeStep (s, as) Failure =
     (if openPending s then (s\<lparr> openPending := False \<rparr>, as) else (s, as))"

definition storeRun :: "event list \<Rightarrow> VectorStore \<times> answer list" where
  "storeRun es = foldl storeStep (newVectorStore, []) es"

text \<open>\<^verbatim>\<open>clipEmbedding\<close>: the module variables \<^verbatim>\<open>embeddingPipeline\<close> (set or \<^verbatim>\<open>null\<close>),
  \<^verbatim>\<open>isLoading\<close> and \<^verbatim>\<open>loadingPromise\<close>, and the number of pipeline loads started.\<close>

record ClipModule =
  embeddingPipeline :: bool
  isLoading :: bool
  loadingPromise :: "nat option"
  loads :: nat

definition newClipModule :: ClipModule where
  "newClipModule = \<lparr> embeddingPipeline = False, isLoading = False, loadingPromise = None, loads = 0 \<rparr>"

definition initCLIP :: "ClipModule \<Rightarrow> ClipModule \<times> answer" where
  "initCLIP s =
     (if embeddingPipeline s then (s, Ready)
      else if isLoading s \<and> loadingPromise s \<noteq> None then (s, Pending (the (loadingPromise s)))
      else (s\<lparr> isLoading := True, loadingPromise := Some (loads s), loads := Suc (loads s) \<rparr>,
            Pending (loads s)))"

text \<open>The load in flight ends in the continuation after \<^verbatim>\<open>await pipeline(...)\<close>: on success
  the pipeline is stored, and \<^verbatim>\<open>finally\<close> clears \<^verbatim>\<open>isLoading\<close> either way.\<close>

fun clipStep :: "ClipModule \<times> answer list \<Rightarrow> event \<Rightarrow> ClipModule \<times> answer list" where
  "clipStep (s, as) CallInit = (case initCLIP s of (s', a) \<Rightarrow> (s', as @ [a]))"
| "clipStep (s, as) Success =
     (if isLoading s then (s\<lparr> embeddingPipeline := True, isLoading := False \<rparr>, as) else (s, as))"
| "clipStep (s, as) Failure =
     (if isLoading s then (s\<lparr> isLoading := False \<rparr>, as) else (s, as))"

definition clipRun :: "event list \<Rightarrow> ClipModule \<times> answer list" where
  "clipRun es = foldl clipStep (newClipModule, []) es"

text \<open>The number of completions that report a failure in a sequence of events.\<close>

definition failures :: "event list \<Rightarrow> nat" where
  "failures es = length (filter (\<lambda>e. e = Failure) es)"

text \<open>What holds of the store and of the module after any sequence of events; \<open>f\<close> is the
  number of failures so far.\<close>

definition storeInv :: "VectorStore \<times> answer list \<Rightarrow> bool" where
  "storeInv c = (case c of (s, as) \<Rightarrow>
      opened s \<le> 1
      \<and> initPromise s = (if opened s = 0 then None else Some 0)
      \<and> (db s \<longrightarrow> opened s = 1)
      \<and> (openPending s \<longrightarrow> opened s = 1)
      \<and> (\<forall>a\<in>set as. a = Ready \<or> a = Pending 0)
      \<and> (Ready \<in> set as \<longrightarrow> db s))"

definition clipInv :: "nat \<Rightarrow> ClipModule \<times> answer list \<Rightarrow> bool" where
  "clipInv f c = (case c of (s, as) \<Rightarrow>
      loads s + (if isLoading s \<or> embeddingPipeline s then 0 else 1) \<le> Suc f
      \<and> (isLoading s \<longrightarrow> \<not> embeddingPipeline s \<and> 0 < loads s
            \<and> loadingPromise s = Some (loads s - 1))
      \<and> (\<forall>a\<in>set as. a = Ready \<or> (\<exists>p<loads s. a = Pending p))
      \<and> (Ready \<in> set as \<longrightarrow> embeddingPipeline s))"

subsection \<open>Similarity and search within the range of doubles\<close>

text \<open>
  The definitions above compute with exact reals, as the code does while no intermediate
  value leaves the range of IEEE doubles.  The following ones keep that range.  A number is
  finite, an infinity or \<^verbatim>\<open>NaN\<close>; an operation on finite numbers whose exact result reaches
  \<open>2 ^ 1024\<close> in magnitude gives an infinity, and the operations on infinities and \<^verbatim>\<open>NaN\<close>
  are those of IEEE 754.  The rounding of finite results and the sign of zero are not
  modelled.  The entries of the arrays are finite numbers.
\<close>

datatype jsnumber = Finite real | PosInfinity | NegInfinity | NaN

definition overflowThreshold :: real where
  "overflowThreshold = 2 ^ 1024"

definition fromReal :: "real \<Rightarrow> jsnumber" where
  "fromReal r =
     (if overflowThreshold \<le> r then PosInfinity
      else if r \<le> - overflowThreshold then NegInfinity
      else Finite r)"


fun jsAdd :: "jsnumber \<Rightarrow> jsnumber \<Rightarrow> jsnumber" where
  "jsAdd NaN _ = NaN"
| "jsAdd _ NaN = NaN"
| "jsAdd (Finite x) (Finite y) = fromReal (x + y)"
| "jsAdd PosInfinity NegInfinity = NaN"
| "jsAdd NegInfinity PosInfinity = NaN"
| "jsAdd PosInfinity _ = PosInfinity"
| "jsAdd _ PosInfinity = PosInfinity"
| "jsAdd NegInfinity _ = NegInfinity"
| "jsAdd _ NegInfinity = NegInfinity"


text \<open>The infinity with the sign of \<open>x\<close> when \<open>pos\<close>, with the opposite sign otherwise;
  \<^verbatim>\<open>NaN\<close> for \<open>x = 0\<close>.\<close>

definition signedInfinity :: "bool \<Rightarrow> real \<Rightarrow> jsnumber" where
  "signedInfinity pos x =
     (if x = 0 then NaN else if (0 < x) = pos then PosInfinity else NegInfinity)"

fun jsMul :: "jsnumber \<Rightarrow> jsnumber \<Rightarrow> jsnumber" where
  "jsMul NaN _ = NaN"
| "jsMul _ NaN = NaN"
| "jsMul (Finite x) (Finite y) = fromReal (x * y)"
| "jsMul (Finite x) PosInfinity = signedInfinity True x"
| "jsMul (Finite x) NegInfinity = signedInfinity False x"
| "jsMul PosInfinity (Finite y) = signedInfinity True y"
| "jsMul NegInfinity (Finite y) = signedInfinity False y"
| "jsMul PosInfinity PosInfinity = PosInfinity"
| "jsMul PosInfinity NegInfinity = NegInfinity"
| "jsMul NegInfinity PosInfinity = NegInfinity"
| "jsMul NegInfinity NegInfinity = PosInfinity"

fun jsDiv :: "jsnumber \<Rightarrow> jsnumber \<Rightarrow> jsnumber" where
  "jsDiv NaN _ = NaN"
| "jsDiv _ NaN = NaN"
| "jsDiv (Finite x) (Finite y) = (if y = 0 then signedInfinity True x else fromReal (x / y))"
| "jsDiv (Finite x) _ = Finite 0"
| "jsDiv PosInfinity (Finite y) = (if y < 0 then NegInfinity else PosInfinity)"
| "jsDiv NegInfinity (Finite y) = (if y < 0 then PosInfinity else NegInfinity)"
| "jsDiv _ _ = NaN"

fun jsSqrt :: "jsnumber \<Rightarrow> jsnumber" where
  "jsSqrt (Finite x) = (if x < 0 then NaN else Finite (sqrt x))"
| "jsSqrt PosInfinity = PosInfinity"
| "jsSqrt NegInfinity = NaN"
| "jsSqrt NaN = NaN"


text \<open>The value of an accumulator \<^verbatim>\<open>acc += a[i] * b[i]\<close> after \<open>n\<close> turns of the loop.\<close>

definition accumulate :: "real list \<Rightarrow> real list \<Rightarrow> nat \<Rightarrow> jsnumber" where
  "accumulate a b n =
     foldl (\<lambda>acc i. jsAdd acc (jsMul (Finite (a ! i)) (Finite (b ! i)))) (Finite 0) [0..<n]"

definition cosineSimilarityDouble :: "real list \<Rightarrow> real list \<Rightarrow> error + jsnumber" where
  "cosineSimilarityDouble a b =
     (if length a \<noteq> length b then Inl DimensionMismatch
      else
        let dotAB = accumulate a b (length a);
            normOfA = accumulate a a (length a);
            normOfB = accumulate b b (length a);
            denom = jsMul (jsSqrt normOfA) (jsSqrt normOfB)
        in if denom = Finite 0 then Inr (Finite 0) else Inr (jsDiv dotAB denom))"







text \<open>An array whose squared norm stays below the threshold of overflow.\<close>

definition inRange :: "real list \<Rightarrow> bool" where
  "inRange a = (normA a < overflowThreshold)"

subsection \<open>A sample index\<close>





section \<open>Properties\<close>

subsection \<open>Cosine similarity and the top-N query\<close>

lemma normA_nonneg: "0 \<le> normA a"
  unfolding normA_def by (rule sum_list_nonneg) auto

lemma normA_sum_list: "normA a = (\<Sum>x\<leftarrow>a. x * x)"
  unfolding normA_def by (intro arg_cong[where f=sum_list] nth_equalityI) auto

lemma normA_zero_iff: "normA a = 0 \<longleftrightarrow> (\<forall>x\<in>set a. x = 0)"
proof -
  have "(\<Sum>x\<leftarrow>a. x * x) = 0 \<longleftrightarrow> (\<forall>y\<in>set (map (\<lambda>x. x * x) a). y = 0)"
    by (rule sum_list_nonneg_eq_0_iff) auto
  then show ?thesis
    by (simp add: normA_sum_list)
qed

lemma dot_sum_list: "length a = length b \<Longrightarrow> dot a b = (\<Sum>(x, y)\<leftarrow>zip a b. x * y)"
  unfolding dot_def by (intro arg_cong[where f=sum_list] nth_equalityI) auto



lemma scoreAll_mismatch:
  "\<exists>r\<in>set all. length (embedding r) \<noteq> length q \<Longrightarrow> scoreAll q all = Inl DimensionMismatch"
proof (induction all)
  case Nil
  then show ?case by simp
next
  case (Cons r rs)
  show ?case
  proof (cases "length (embedding r) = length q")
    case True
    with Cons.prems have "\<exists>r\<in>set rs. length (embedding r) \<noteq> length q" by auto
    then have "scoreAll q rs = Inl DimensionMismatch" by (rule Cons.IH)
    then show ?thesis by (simp add: cosineSimilarity_def split: sum.splits)
  next
    case False
    then show ?thesis by (simp add: cosineSimilarity_def)
  qed
qed

lemma scoreAll_error:
  "scoreAll q all = Inl e \<Longrightarrow> e = DimensionMismatch \<and> (\<exists>r\<in>set all. length (embedding r) \<noteq> length q)"
  by (induction all) (auto simp: cosineSimilarity_def split: sum.splits if_splits)

text \<open>
  Claim C1.  On a non-empty index whose stored embeddings all have length \<open>L\<close>, a query
  embedding of another length makes the top-N query fail with the dimension mismatch: no
  result list, and so no coerced or zero score, is returned.
\<close>

theorem searchByEmbedding_dimension_mismatch:
  assumes "all \<noteq> []"
    and "\<forall>r\<in>set all. length (embedding r) = L"
    and "length q \<noteq> L"
  shows "searchByEmbedding (Inr all) q n = Inl DimensionMismatch"
proof -
  from assms(1) obtain r where "r \<in> set all"
    by (cases all) auto
  with assms(2,3) have "\<exists>r\<in>set all. length (embedding r) \<noteq> length q"
    by auto
  then have "scoreAll q all = Inl DimensionMismatch"
    by (rule scoreAll_mismatch)
  with assms(1) show ?thesis
    by (simp add: searchByEmbedding_def)
qed

theorem searchByEmbedding_dimension_mismatch_witness:
  "[\<lparr> rid = ''img_1'', embedding = replicate 256 (1 / 16), pHash = ''00ff00ff00ff00ff'',
       accountName = ''Alice'', accountHandle = ''@alice'', eventName = None,
       imageUrl = None, createdAt = 0 \<rparr>] \<noteq> []
   \<and> list_all (\<lambda>r. length (embedding r) = 256)
       [\<lparr> rid = ''img_1'', embedding = replicate 256 (1 / 16), pHash = ''00ff00ff00ff00ff'',
         accountName = ''Alice'', accountHandle = ''@alice'', eventName = None,
         imageUrl = None, createdAt = 0 \<rparr>]
   \<and> length (replicate 512 (0::real)) \<noteq> 256
   \<and> searchByEmbedding (Inr [\<lparr> rid = ''img_1'', embedding = replicate 256 (1 / 16), pHash = ''00ff00ff00ff00ff'',
       accountName = ''Alice'', accountHandle = ''@alice'', eventName = None,
       imageUrl = None, createdAt = 0 \<rparr>]) (replicate 512 0) 10 = Inl DimensionMismatch"
  using searchByEmbedding_dimension_mismatch
    [of "[\<lparr> rid = ''img_1'', embedding = replicate 256 (1 / 16), pHash = ''00ff00ff00ff00ff'',
       accountName = ''Alice'', accountHandle = ''@alice'', eventName = None,
       imageUrl = None, createdAt = 0 \<rparr>]" 256 "replicate 512 0" 10]
  by simp

text \<open>
  Claim C9.  On an index without records the top-N query returns the empty list for every
  query embedding, whatever its length.  The dimension mismatch is raised exactly when some
  stored record has an embedding of another length than the query, hence only when a record
  is stored: the lengths are compared record by record.
\<close>

theorem searchByEmbedding_empty_index:
  "searchByEmbedding (Inr []) q n = Inr []
   \<and> (searchByEmbedding (Inr all) q n = Inl DimensionMismatch
        \<longleftrightarrow> (\<exists>r\<in>set all. length (embedding r) \<noteq> length q))"
proof -
  have "searchByEmbedding (Inr all) q n = Inl DimensionMismatch"
    if "\<exists>r\<in>set all. length (embedding r) \<noteq> length q"
  proof -
    from that have "all \<noteq> []" by auto
    moreover from that have "scoreAll q all = Inl DimensionMismatch"
      by (rule scoreAll_mismatch)
    ultimately show ?thesis by (simp add: searchByEmbedding_def)
  qed
  moreover have "\<exists>r\<in>set all. length (embedding r) \<noteq> length q"
    if "searchByEmbedding (Inr all) q n = Inl DimensionMismatch"
    using that scoreAll_error[of q all]
    by (auto simp: searchByEmbedding_def split: if_splits sum.splits)
  moreover have "searchByEmbedding (Inr []) q n = Inr []"
    by (simp add: searchByEmbedding_def)
  ultimately show ?thesis
    by blast
qed

theorem searchByEmbedding_empty_index_witness:
  "searchByEmbedding (Inr []) [1, 2, 3] 10 = Inr []
   \<and> searchByEmbedding (Inr [\<lparr> rid = ''img_1'', embedding = [1, 0], pHash = ''00ff00ff00ff00ff'',
        accountName = ''Alice'', accountHandle = ''@alice'', eventName = None,
        imageUrl = None, createdAt = 0 \<rparr>]) [1, 2, 3] 10 = Inl DimensionMismatch"
  using searchByEmbedding_empty_index
    [of "[1, 2, 3]" 10 "[\<lparr> rid = ''img_1'', embedding = [1, 0], pHash = ''00ff00ff00ff00ff'',
        accountName = ''Alice'', accountHandle = ''@alice'', eventName = None,
        imageUrl = None, createdAt = 0 \<rparr>]"]
  by simp

subsection \<open>Similarity and search within the range of doubles\<close>


lemma fromReal_Finite: "\<bar>r\<bar> < overflowThreshold \<Longrightarrow> fromReal r = Finite r"
  by (auto simp: fromReal_def)

lemma fromReal_overflow: "overflowThreshold \<le> r \<Longrightarrow> fromReal r = PosInfinity"
  by (simp add: fromReal_def)

lemma overflowThreshold_pos: "0 < overflowThreshold"
  by (simp add: overflowThreshold_def)

lemma fromReal_small: "\<bar>r\<bar> \<le> 1 \<Longrightarrow> fromReal r = Finite r"
  by (rule fromReal_Finite) (simp add: overflowThreshold_def)

lemma fromReal_0: "fromReal 0 = Finite 0"
  by (rule fromReal_small) simp

lemma accumulate_Suc:
  "accumulate a b (Suc n) = jsAdd (accumulate a b n) (jsMul (Finite (a ! n)) (Finite (b ! n)))"
  by (simp add: accumulate_def)

lemma accumulate_0: "accumulate a b 0 = Finite 0"
  by (simp add: accumulate_def)

lemma accumulate_2:
  "accumulate a b (Suc (Suc 0)) =
     jsAdd (jsAdd (Finite 0) (jsMul (Finite (a ! 0)) (Finite (b ! 0))))
       (jsMul (Finite (a ! 1)) (Finite (b ! 1)))"
  by (simp add: accumulate_Suc accumulate_0)

text \<open>An accumulator whose partial sums and summands all stay below the threshold holds the
  exact sum.\<close>

lemma accumulate_exact:
  assumes "\<And>j. j \<le> n \<Longrightarrow> \<bar>\<Sum>i<j. a ! i * b ! i\<bar> < overflowThreshold"
    and "\<And>i. i < n \<Longrightarrow> \<bar>a ! i * b ! i\<bar> < overflowThreshold"
  shows "accumulate a b n = Finite (\<Sum>i<n. a ! i * b ! i)"
  using assms
proof (induction n)
  case 0
  then show ?case by (simp add: accumulate_0)
next
  case (Suc n)
  have "accumulate a b n = Finite (\<Sum>i<n. a ! i * b ! i)"
    by (rule Suc.IH) (simp_all add: Suc.prems)
  moreover have "fromReal (a ! n * b ! n) = Finite (a ! n * b ! n)"
    by (rule fromReal_Finite) (simp add: Suc.prems)
  moreover have "fromReal ((\<Sum>i<n. a ! i * b ! i) + a ! n * b ! n)
      = Finite ((\<Sum>i<n. a ! i * b ! i) + a ! n * b ! n)"
    using Suc.prems(1)[of "Suc n"] by (intro fromReal_Finite) simp
  ultimately show ?case
    by (simp add: accumulate_Suc)
qed

lemma normA_sum: "normA a = (\<Sum>i<length a. a ! i * a ! i)"
  by (simp add: normA_def interv_sum_list_conv_sum_set_nat atLeast0LessThan)

lemma dot_sum: "dot a b = (\<Sum>i<length a. a ! i * b ! i)"
  by (simp add: dot_def interv_sum_list_conv_sum_set_nat atLeast0LessThan)

lemma squares_prefix:
  assumes "j \<le> length a"
  shows "0 \<le> (\<Sum>i<j. a ! i * a ! i)" and "(\<Sum>i<j. a ! i * a ! i) \<le> normA a"
proof -
  show "0 \<le> (\<Sum>i<j. a ! i * a ! i)"
    by (rule sum_nonneg) simp
  show "(\<Sum>i<j. a ! i * a ! i) \<le> normA a"
    unfolding normA_sum using assms
    by (intro sum_mono2) auto
qed

lemma square_le_normA: "i < length a \<Longrightarrow> a ! i * a ! i \<le> normA a"
  unfolding normA_sum by (rule member_le_sum) auto

lemma accumulate_norm:
  assumes "inRange a"
  shows "accumulate a a (length a) = Finite (normA a)"
proof -
  have "accumulate a a (length a) = Finite (\<Sum>i<length a. a ! i * a ! i)"
  proof (rule accumulate_exact)
    fix j assume "j \<le> length a"
    from squares_prefix[OF this] assms show "\<bar>\<Sum>i<j. a ! i * a ! i\<bar> < overflowThreshold"
      by (simp add: inRange_def)
  next
    fix i assume "i < length a"
    from square_le_normA[OF this] assms show "\<bar>a ! i * a ! i\<bar> < overflowThreshold"
      by (simp add: inRange_def)
  qed
  then show ?thesis by (simp add: normA_sum)
qed

lemma product_le_squares: "\<bar>x * y\<bar> \<le> (x * x + y * y) / (2::real)"
proof -
  have "0 \<le> (\<bar>x\<bar> - \<bar>y\<bar>) * (\<bar>x\<bar> - \<bar>y\<bar>)" by simp
  then have "2 * (\<bar>x\<bar> * \<bar>y\<bar>) \<le> \<bar>x\<bar> * \<bar>x\<bar> + \<bar>y\<bar> * \<bar>y\<bar>"
    by (simp add: algebra_simps)
  then show ?thesis
    by (simp add: abs_mult)
qed

lemma dot_prefix:
  assumes "j \<le> length a" and "length a = length b"
  shows "\<bar>\<Sum>i<j. a ! i * b ! i\<bar> \<le> (normA a + normA b) / 2"
proof -
  have "\<bar>\<Sum>i<j. a ! i * b ! i\<bar> \<le> (\<Sum>i<j. \<bar>a ! i * b ! i\<bar>)"
    by (rule sum_abs)
  also have "\<dots> \<le> (\<Sum>i<j. (a ! i * a ! i + b ! i * b ! i) / 2)"
    by (intro sum_mono product_le_squares)
  also have "\<dots> = ((\<Sum>i<j. a ! i * a ! i) + (\<Sum>i<j. b ! i * b ! i)) / 2"
    by (simp only: sum.distrib flip: sum_divide_distrib)
  also have "\<dots> \<le> (normA a + normA b) / 2"
    using squares_prefix(2)[of j a] squares_prefix(2)[of j b] assms by simp
  finally show ?thesis .
qed

lemma accumulate_dot:
  assumes "inRange a" and "inRange b" and "length a = length b"
  shows "accumulate a b (length a) = Finite (dot a b)"
proof -
  have bound: "(normA a + normA b) / 2 < overflowThreshold"
    using assms(1,2) by (simp add: inRange_def)
  have "accumulate a b (length a) = Finite (\<Sum>i<length a. a ! i * b ! i)"
  proof (rule accumulate_exact)
    fix j assume "j \<le> length a"
    from dot_prefix[OF this assms(3)] bound show "\<bar>\<Sum>i<j. a ! i * b ! i\<bar> < overflowThreshold"
      by simp
  next
    fix i assume i: "i < length a"
    have "\<bar>a ! i * b ! i\<bar> \<le> (a ! i * a ! i + b ! i * b ! i) / 2"
      by (rule product_le_squares)
    also have "\<dots> \<le> (normA a + normA b) / 2"
      using square_le_normA[of i a] square_le_normA[of i b] i assms(3) by simp
    finally show "\<bar>a ! i * b ! i\<bar> < overflowThreshold"
      using bound by simp
  qed
  then show ?thesis by (simp add: dot_sum)
qed

lemma denominator_inRange:
  assumes "inRange a" and "inRange b"
  shows "0 \<le> denominator a b" and "denominator a b < overflowThreshold"
proof -
  show "0 \<le> denominator a b"
    by (simp add: denominator_def normA_nonneg)
  have "normA a * normA b < overflowThreshold * overflowThreshold"
    using assms normA_nonneg[of a] normA_nonneg[of b]
    by (intro mult_strict_mono') (simp_all add: inRange_def)
  then have "sqrt (normA a * normA b) < sqrt (overflowThreshold * overflowThreshold)"
    by (rule real_sqrt_less_mono)
  also have "sqrt (overflowThreshold * overflowThreshold) = overflowThreshold"
    using overflowThreshold_pos by simp
  finally show "denominator a b < overflowThreshold"
    by (simp add: denominator_def real_sqrt_mult)
qed

text \<open>While the squared norms of both arrays stay below the threshold, nothing overflows and
  the similarity is the one computed over the reals.\<close>

lemma cosineSimilarityDouble_exact:
  assumes "inRange a" and "inRange b" and "length a = length b"
  shows "cosineSimilarityDouble a b =
     (if denominator a b = 0 then Inr (Finite 0)
      else Inr (fromReal (dot a b / denominator a b)))"
proof -
  have na: "accumulate a a (length b) = Finite (normA a)"
    using accumulate_norm[OF assms(1)] assms(3) by simp
  have nb: "accumulate b b (length b) = Finite (normA b)"
    by (rule accumulate_norm[OF assms(2)])
  have d: "accumulate a b (length b) = Finite (dot a b)"
    using accumulate_dot[OF assms] assms(3) by simp
  have "fromReal (denominator a b) = Finite (denominator a b)"
    using denominator_inRange[OF assms(1,2)] by (intro fromReal_Finite) simp
  then have den: "jsMul (jsSqrt (Finite (normA a))) (jsSqrt (Finite (normA b))) = Finite (denominator a b)"
    using normA_nonneg[of a] normA_nonneg[of b]
    by (simp add: denominator_def not_less)
  have "cosineSimilarityDouble a b =
      (if Finite (denominator a b) = Finite 0 then Inr (Finite 0)
       else Inr (jsDiv (Finite (dot a b)) (Finite (denominator a b))))"
    by (simp only: cosineSimilarityDouble_def Let_def assms(3) na nb d den
        simp_thms if_False)
  then show ?thesis
    by simp
qed

lemma cosineSimilarityDouble_cosineSimilarity:
  assumes "inRange a" and "inRange b"
  shows "cosineSimilarityDouble a b = map_sum (\<lambda>e. e) fromReal (cosineSimilarity a b)"
proof (cases "length a = length b")
  case True
  from assms this show ?thesis
    by (simp add: cosineSimilarityDouble_exact cosineSimilarity_def fromReal_0)
next
  case False
  then show ?thesis
    by (simp add: cosineSimilarityDouble_def cosineSimilarity_def)
qed


text \<open>Within that range a vector of magnitude zero makes the guard before the division
  apply.\<close>

lemma cosineSimilarityDouble_zero_in_range:
  assumes "length a = length b" and "inRange a" and "inRange b"
    and "(\<forall>x\<in>set a. x = 0) \<or> (\<forall>x\<in>set b. x = 0)"
  shows "cosineSimilarityDouble a b = Inr (Finite 0)"
proof -
  from assms(4) have "normA a = 0 \<or> normA b = 0"
    by (simp add: normA_zero_iff)
  then have "denominator a b = 0"
    by (auto simp: denominator_def)
  then show ?thesis
    by (simp add: cosineSimilarityDouble_exact[OF assms(2,3,1)])
qed

text \<open>Outside of it, a squared norm that overflows makes the product of the norms, or the
  quotient, \<^verbatim>\<open>NaN\<close>.\<close>

lemma cosine_zero_overflow:
  assumes "overflowThreshold \<le> y * y"
  shows "cosineSimilarityDouble [0, 0] [y, 0] = Inr NaN"
proof -
  have yy: "fromReal (y * y) = PosInfinity"
    using assms by (simp add: fromReal_overflow)
  have d: "accumulate [0, 0] [y, 0] (Suc (Suc 0)) = Finite 0"
    by (simp add: accumulate_2 fromReal_0)
  have na: "accumulate [0, 0] [0, 0] (Suc (Suc 0)) = Finite 0"
    by (simp add: accumulate_2 fromReal_0)
  have nb: "accumulate [y, 0] [y, 0] (Suc (Suc 0)) = PosInfinity"
    by (simp add: accumulate_2 yy fromReal_0)
  show ?thesis
    by (simp add: cosineSimilarityDouble_def Let_def d na nb signedInfinity_def)
qed


text \<open>
  Claim C10.  The claim is that for two vectors of one length of which at least one has
  magnitude zero \<open>cosineSimilarity\<close> returns exactly 0 and never \<^verbatim>\<open>NaN\<close>, and the guard
  \<^verbatim>\<open>denominator === 0\<close> before the division is there for it.  The code misses the case
  in which the squared norm of the other vector overflows: for \<open>a = [0, 0]\<close> and
  \<open>b = [10 ^ 200, 0]\<close> the norm of \<open>b\<close> is infinite, the denominator \<open>0 * Infinity\<close> is
  \<^verbatim>\<open>NaN\<close>, the guard does not apply, and the value returned is \<^verbatim>\<open>NaN\<close>.
\<close>

theorem cosineSimilarityDouble_overflow_NaN:
  "length [0, 0 :: real] = length [10 ^ 200, 0 :: real]
   \<and> list_all (\<lambda>x. x = 0) [0, 0 :: real]
   \<and> cosineSimilarityDouble [0, 0] [10 ^ 200, 0] = Inr NaN
   \<and> cosineSimilarityDouble [0, 0] [10 ^ 200, 0] \<noteq> Inr (Finite 0)"
proof -
  have "cosineSimilarityDouble [0, 0] [10 ^ 200, 0] = Inr NaN"
    by (rule cosine_zero_overflow) (simp add: overflowThreshold_def)
  then show ?thesis
    by simp
qed



















subsection \<open>The search on an empty index\<close>

text \<open>
  Claim C5.  On an index without records no report of a search carries the status
  \<open>Scoring\<close>; and when the model, the embedding of the query and its image are available,
  so that the call reaches the search step, it returns the empty list and its last report
  is \<open>Done\<close> at 100.
\<close>

theorem findSimilarAccounts_empty_index:
  assumes "index env = Inr []"
  shows "(\<forall>p\<in>set (fst (findSimilarAccounts env evName)). pstatus p \<noteq> Scoring)
     \<and> ((isCLIPReady env \<or> initCLIPOutcome env = Inr ())
          \<and> (\<exists>e. getImageEmbedding env = Inr e) \<and> (\<exists>d. decodedImage env = Inr d)
        \<longrightarrow> snd (findSimilarAccounts env evName) = Inr []
            \<and> last (fst (findSimilarAccounts env evName)) = report Done 100 NoCandidates)"
  using assms
  by (auto simp: findSimilarAccounts_def Let_def report_def searchByEmbedding_def computePHash_def
      split: sum.splits)

theorem findSimilarAccounts_empty_index_witness:
  "index \<lparr> isCLIPReady = False, initCLIPOutcome = Inr (), getImageEmbedding = Inr [1, 0],
           decodedImage = Inr (replicate 4096 0), index = Inr [] \<rparr> = Inr []
   \<and> list_all (\<lambda>p. pstatus p \<noteq> Scoring)
        (fst (findSimilarAccounts \<lparr> isCLIPReady = False, initCLIPOutcome = Inr (),
           getImageEmbedding = Inr [1, 0], decodedImage = Inr (replicate 4096 0),
           index = Inr [] \<rparr> None))
   \<and> snd (findSimilarAccounts \<lparr> isCLIPReady = False, initCLIPOutcome = Inr (),
           getImageEmbedding = Inr [1, 0], decodedImage = Inr (replicate 4096 0),
           index = Inr [] \<rparr> None) = Inr []
   \<and> last (fst (findSimilarAccounts \<lparr> isCLIPReady = False, initCLIPOutcome = Inr (),
           getImageEmbedding = Inr [1, 0], decodedImage = Inr (replicate 4096 0),
           index = Inr [] \<rparr> None)) = \<lparr> pstatus = Done, progress = 100, pmessage = NoCandidates \<rparr>"
  using findSimilarAccounts_empty_index
    [of "\<lparr> isCLIPReady = False, initCLIPOutcome = Inr (), getImageEmbedding = Inr [1, 0],
           decodedImage = Inr (replicate 4096 0), index = Inr [] \<rparr>" None]
  by (simp add: list_all_iff report_def)

subsection \<open>Hamming distance of hashes\<close>

lemma hexToBinary_Nil: "hexToBinary [] = []"
  by (simp add: hexToBinary_def)

lemma hexToBinary_Cons: "hexToBinary (c # cs) = hexBits c @ hexToBinary cs"
  by (simp add: hexToBinary_def)

lemma lower_hex_cases:
  assumes "c \<in> lowerHex"
  shows "c = CHR ''0'' \<or> c = CHR ''1'' \<or> c = CHR ''2'' \<or> c = CHR ''3'' \<or> c = CHR ''4''
    \<or> c = CHR ''5'' \<or> c = CHR ''6'' \<or> c = CHR ''7'' \<or> c = CHR ''8'' \<or> c = CHR ''9''
    \<or> c = CHR ''a'' \<or> c = CHR ''b'' \<or> c = CHR ''c'' \<or> c = CHR ''d'' \<or> c = CHR ''e''
    \<or> c = CHR ''f''"
  using assms by (auto simp: lowerHex_def)

lemma replicate_2: "replicate 2 x = [x, x]"
  by (simp add: numeral_2_eq_2)

lemma replicate_3: "replicate 3 x = [x, x, x]"
  by (simp add: numeral_3_eq_3)

lemma hexBits_values:
  "hexBits (CHR ''0'') = ''0000''" "hexBits (CHR ''1'') = ''0001''"
  "hexBits (CHR ''2'') = ''0010''" "hexBits (CHR ''3'') = ''0011''"
  "hexBits (CHR ''4'') = ''0100''" "hexBits (CHR ''5'') = ''0101''"
  "hexBits (CHR ''6'') = ''0110''" "hexBits (CHR ''7'') = ''0111''"
  "hexBits (CHR ''8'') = ''1000''" "hexBits (CHR ''9'') = ''1001''"
  "hexBits (CHR ''a'') = ''1010''" "hexBits (CHR ''b'') = ''1011''"
  "hexBits (CHR ''c'') = ''1100''" "hexBits (CHR ''d'') = ''1101''"
  "hexBits (CHR ''e'') = ''1110''" "hexBits (CHR ''f'') = ''1111''"
  by (simp_all add: hexBits_def padStart_def numToString2_def parseInt16_def toString2.simps
      replicate_2 replicate_3)

lemma length_hexBits:
  "c \<in> lowerHex \<Longrightarrow> length (hexBits c) = 4"
  by (drule lower_hex_cases) (auto simp: hexBits_values)

lemma hexBits_inj:
  "c \<in> lowerHex \<Longrightarrow> d \<in> lowerHex \<Longrightarrow>
     hexBits c = hexBits d \<Longrightarrow> c = d"
  apply (drule lower_hex_cases)
  apply (drule lower_hex_cases)
  apply (elim disjE; simp add: hexBits_values)
  done


lemma length_hexToBinary:
  "\<forall>c\<in>set h. c \<in> lowerHex \<Longrightarrow> length (hexToBinary h) = 4 * length h"
  by (induction h) (simp_all add: hexToBinary_Nil hexToBinary_Cons length_hexBits)

lemma hexToBinary_inj:
  assumes "\<forall>c\<in>set h1. c \<in> lowerHex"
    and "\<forall>c\<in>set h2. c \<in> lowerHex"
    and "length h1 = length h2"
    and "hexToBinary h1 = hexToBinary h2"
  shows "h1 = h2"
  using assms(3,1,2,4)
proof (induction h1 h2 rule: list_induct2)
  case Nil
  then show ?case by simp
next
  case (Cons c cs d ds)
  have c: "c \<in> lowerHex" and d: "d \<in> lowerHex"
    using Cons.prems(1,2) by (simp_all)
  have "hexBits c @ hexToBinary cs = hexBits d @ hexToBinary ds"
    using Cons.prems(3) by (simp add: hexToBinary_Cons)
  moreover have "length (hexBits c) = length (hexBits d)"
    using c d by (simp add: length_hexBits)
  ultimately have eq: "hexBits c = hexBits d" "hexToBinary cs = hexToBinary ds"
    by simp_all
  from c d eq(1) have "c = d" by (rule hexBits_inj)
  moreover have "cs = ds"
    using Cons.IH Cons.prems(1,2) eq(2) by (simp)
  ultimately show ?case by simp
qed

lemma hammingDistance_zero_iff:
  "hammingDistance h1 h2 = 0 \<longleftrightarrow>
     (\<forall>i < max (length (hexToBinary h1)) (length (hexToBinary h2)).
        bitAt (hexToBinary h1) i = bitAt (hexToBinary h2) i)"
  by (auto simp: hammingDistance_def Let_def filter_empty_conv)


lemma pHashSimilarity_one_iff: "pHashSimilarity h1 h2 = 1 \<longleftrightarrow> hammingDistance h1 h2 = 0"
  by (simp add: pHashSimilarity_def)

lemma pHashSimilarity_less_one_iff: "pHashSimilarity h1 h2 < 1 \<longleftrightarrow> hammingDistance h1 h2 \<noteq> 0"
  by (simp add: pHashSimilarity_def)

text \<open>
  Claim C7, as amended.  For two hashes of one length written in the digits \<open>0-9a-f\<close>,
  as every hash that \<open>computePHash\<close> returns is, the distance is 0 exactly when they are
  identical, the similarity is 1 exactly when they are identical, and it is below 1 when
  they differ.
\<close>

theorem pHashSimilarity_identical_only:
  assumes "length h1 = length h2"
    and "\<forall>c\<in>set h1. c \<in> lowerHex"
    and "\<forall>c\<in>set h2. c \<in> lowerHex"
  shows "(hammingDistance h1 h2 = 0 \<longleftrightarrow> h1 = h2)
     \<and> (pHashSimilarity h1 h2 = 1 \<longleftrightarrow> h1 = h2)
     \<and> (h1 \<noteq> h2 \<longrightarrow> pHashSimilarity h1 h2 < 1)"
proof -
  have len: "length (hexToBinary h1) = length (hexToBinary h2)"
    using assms by (simp add: length_hexToBinary)
  have "hammingDistance h1 h2 = 0 \<longleftrightarrow> hexToBinary h1 = hexToBinary h2"
    using len by (auto simp: hammingDistance_zero_iff bitAt_def intro: nth_equalityI)
  also have "\<dots> \<longleftrightarrow> h1 = h2"
    using hexToBinary_inj[OF assms(2,3,1)] by auto
  finally have "hammingDistance h1 h2 = 0 \<longleftrightarrow> h1 = h2" .
  then show ?thesis
    by (simp add: pHashSimilarity_one_iff pHashSimilarity_less_one_iff)
qed

theorem pHashSimilarity_identical_only_witness:
  "length ''00ff00ff00ff00fe'' = length ''00ff00ff00ff00ff''
   \<and> set ''00ff00ff00ff00fe'' \<subseteq> lowerHex
   \<and> set ''00ff00ff00ff00ff'' \<subseteq> lowerHex
   \<and> ''00ff00ff00ff00fe'' \<noteq> ''00ff00ff00ff00ff''
   \<and> pHashSimilarity ''00ff00ff00ff00fe'' ''00ff00ff00ff00ff'' < 1
   \<and> hammingDistance ''00ff00ff00ff00fe'' ''00ff00ff00ff00ff'' \<noteq> 0"
  using pHashSimilarity_identical_only [of "''00ff00ff00ff00fe''" "''00ff00ff00ff00ff''"]
  by (simp add: lowerHex_def)

text \<open>
  Claim C7 as stated, for every pair of strings, fails: a hash and its upper-case spelling,
  a hash and the same hash with trailing zero digits dropped, and two strings of characters
  that are no hexadecimal digits are different strings at distance 0 and similarity 1.
\<close>

theorem pHashSimilarity_distinct_hashes_counterexample:
  "''00ff00ff00ff00ff'' \<noteq> ''00FF00FF00FF00FF''
   \<and> hammingDistance ''00ff00ff00ff00ff'' ''00FF00FF00FF00FF'' = 0
   \<and> pHashSimilarity ''00ff00ff00ff00ff'' ''00FF00FF00FF00FF'' = 1
   \<and> ''0'' \<noteq> []
   \<and> hammingDistance ''0'' [] = 0
   \<and> pHashSimilarity ''0'' [] = 1
   \<and> ''g'' \<noteq> ''z''
   \<and> hammingDistance ''g'' ''z'' = 0
   \<and> pHashSimilarity ''g'' ''z'' = 1"
proof -
  have "hexToBinary ''00FF00FF00FF00FF'' = hexToBinary ''00ff00ff00ff00ff''"
    by (simp add: hexToBinary_def hexBits_def padStart_def numToString2_def parseInt16_def
        toString2.simps)
  then have "hammingDistance ''00ff00ff00ff00ff'' ''00FF00FF00FF00FF'' = 0"
    by (simp add: hammingDistance_zero_iff)
  moreover have "hexToBinary ''0'' = ''0000''" "hexToBinary [] = []"
    by (simp_all add: hexToBinary_def hexBits_values)
  then have "hammingDistance ''0'' [] = 0"
    by (auto simp: hammingDistance_zero_iff bitAt_def less_Suc_eq eval_nat_numeral)
  moreover have "hexToBinary ''g'' = hexToBinary ''z''"
    by (simp add: hexToBinary_def hexBits_def padStart_def numToString2_def parseInt16_def
        toString2.simps)
  then have "hammingDistance ''g'' ''z'' = 0"
    by (simp add: hammingDistance_zero_iff)
  ultimately show ?thesis
    by (simp add: pHashSimilarity_one_iff)
qed

subsection \<open>The discrete cosine transform\<close>

lemma computeDCT_nth:
  "u < sz \<Longrightarrow> v < sz \<Longrightarrow>
     computeDCT pixels sz ! u ! v = 0.25 * dctC u * dctC v * dctSum pixels sz u v"
  by (simp add: computeDCT_def dctC_def Let_def)

lemma length_computeDCT:
  "length (computeDCT pixels sz) = sz"
  "u < sz \<Longrightarrow> length (computeDCT pixels sz ! u) = sz"
  by (simp_all add: computeDCT_def)

lemma orthonormalDCT_dctSum:
  assumes "0 < N"
  shows "orthonormalDCT N pixels u v = 2 / real N * dctC u * dctC v * dctSum pixels N u v"
proof -
  define k where "k = sqrt (2 / real N)"
  have sq: "k * k = 2 / real N"
    by (simp add: k_def)
  have pt: "pixels ! x ! y * dctBasis N u x * dctBasis N v y =
      (k * k * dctC u * dctC v)
        * (pixels ! x ! y
            * cos (real (2 * x + 1) * real u * pi / real (2 * N))
            * cos (real (2 * y + 1) * real v * pi / real (2 * N)))" for x y
    unfolding dctBasis_def k_def[symmetric] by (simp only: mult_ac)
  have "orthonormalDCT N pixels u v = (k * k * dctC u * dctC v) * dctSum pixels N u v"
    unfolding orthonormalDCT_def dctSum_def pt
    by (simp only: sum_list_const_mult)
  then show ?thesis
    by (simp only: sq)
qed

lemma dctSum_DC:
  "dctSum pixels sz 0 0 = (\<Sum>x\<leftarrow>[0..<sz]. \<Sum>y\<leftarrow>[0..<sz]. pixels ! x ! y)"
  by (simp add: dctSum_def)

lemma sum_list_const_upt: "(\<Sum>x\<leftarrow>[0..<n]. (c::real)) = real n * c"
  by (induction n) (simp_all add: algebra_simps)

lemma dctSum_DC_replicate:
  "dctSum (replicate n (replicate n c)) n 0 0 = real n * (real n * c)"
proof -
  have "(\<Sum>x\<leftarrow>[0..<n]. \<Sum>y\<leftarrow>[0..<n]. replicate n (replicate n c) ! x ! y)
      = (\<Sum>x\<leftarrow>[0..<n]. \<Sum>y\<leftarrow>[0..<n]. c)"
    by (intro arg_cong[where f=sum_list] map_cong refl) simp
  then show ?thesis
    by (simp add: dctSum_DC sum_list_const_upt)
qed

text \<open>The constant basis function of the specification has norm 1.\<close>

lemma dctBasis_DC_unit:
  assumes "0 < N"
  shows "(\<Sum>x\<leftarrow>[0..<N]. dctBasis N 0 x * dctBasis N 0 x) = 1"
proof -
  define a where "a = sqrt (2 / real N)"
  define c :: real where "c = 1 / sqrt 2"
  have aa: "a * a = 2 / real N"
    by (simp add: a_def)
  have cc: "c * c = 1 / 2"
    by (simp add: c_def field_simps)
  have b: "dctBasis N 0 x = a * c" for x
    by (simp add: dctBasis_def dctC_def a_def c_def)
  have "(a * c) * (a * c) = (a * a) * (c * c)"
    by (simp only: mult_ac)
  then have "dctBasis N 0 x * dctBasis N 0 x = 1 / real N" for x
    by (simp add: b aa cc)
  then show ?thesis
    using assms by (simp add: sum_list_const_upt)
qed

text \<open>
  Claim C6, as amended.  For a 32 by 32 matrix and \<open>u, v < 32\<close>, the coefficient that
  \<open>computeDCT\<close> returns is \<open>0.25 * C u * C v\<close> times the double cosine sum, with
  \<open>C 0 = 1 / sqrt 2\<close> and \<open>C k = 1\<close> otherwise: four times the coefficient of the
  orthonormal DCT-II for \<open>N = 32\<close>, whose factor is \<open>2 / 32\<close>.
\<close>

theorem computeDCT_scale:
  assumes "length pixels = 32" and "\<forall>row\<in>set pixels. length row = 32"
    and "u < 32" and "v < 32"
  shows "computeDCT pixels 32 ! u ! v = 0.25 * dctC u * dctC v * dctSum pixels 32 u v
     \<and> computeDCT pixels 32 ! u ! v = 4 * orthonormalDCT 32 pixels u v"
  using assms(3,4) by (simp add: computeDCT_nth orthonormalDCT_dctSum)

theorem computeDCT_scale_witness:
  "length (replicate 32 (replicate 32 (255::real))) = 32
   \<and> list_all (\<lambda>row. length row = 32) (replicate 32 (replicate 32 (255::real)))
   \<and> (1::nat) < 32 \<and> (2::nat) < 32
   \<and> computeDCT (replicate 32 (replicate 32 255)) 32 ! 1 ! 2
       = 4 * orthonormalDCT 32 (replicate 32 (replicate 32 255)) 1 2"
  using computeDCT_scale [of "replicate 32 (replicate 32 255)" 1 2]
  by (simp add: list_all_iff)

text \<open>
  Claim C6 as stated fails: on the matrix of ones the coefficient at \<open>(0, 0)\<close> is 128,
  while the orthonormal DCT-II gives 32.
\<close>

theorem computeDCT_orthonormal_counterexample:
  "computeDCT (replicate 32 (replicate 32 1)) 32 ! 0 ! 0 = 128
   \<and> orthonormalDCT 32 (replicate 32 (replicate 32 1)) 0 0 = 32
   \<and> computeDCT (replicate 32 (replicate 32 1)) 32 ! 0 ! 0
       \<noteq> orthonormalDCT 32 (replicate 32 (replicate 32 1)) 0 0"
  by (simp add: computeDCT_nth orthonormalDCT_dctSum dctSum_DC_replicate dctC_def)

subsection \<open>The perceptual hash\<close>

lemma length_filter_sort:
  "length (filter P (sort xs)) = length (filter P xs)"
proof -
  have "mset (filter P (sort xs)) = mset (filter P xs)"
    by (simp only: mset_filter mset_sort)
  then show ?thesis
    by (rule mset_eq_length)
qed

lemma sorted_nth_count_le:
  fixes s :: "real list"
  assumes "sorted s" and "k < length s"
  shows "Suc k \<le> length (filter (\<lambda>x. x \<le> s ! k) s)"
proof -
  have "filter (\<lambda>x. x \<le> s ! k) (take (Suc k) s) = take (Suc k) s"
    using assms by (auto simp: filter_id_conv in_set_conv_nth sorted_nth_mono)
  moreover have "s = take (Suc k) s @ drop (Suc k) s"
    by simp
  then have "length (filter (\<lambda>x. x \<le> s ! k) s) =
      length (filter (\<lambda>x. x \<le> s ! k) (take (Suc k) s))
      + length (filter (\<lambda>x. x \<le> s ! k) (drop (Suc k) s))"
    by (metis filter_append length_append)
  ultimately show ?thesis
    using assms(2) by simp
qed

lemma sorted_nth_count_ge:
  fixes s :: "real list"
  assumes "sorted s" and "k < length s"
  shows "length s - k \<le> length (filter (\<lambda>x. s ! k \<le> x) s)"
proof -
  have "filter (\<lambda>x. s ! k \<le> x) (drop k s) = drop k s"
    using assms by (auto simp: filter_id_conv in_set_conv_nth sorted_nth_mono)
  moreover have "s = take k s @ drop k s"
    by simp
  then have "length (filter (\<lambda>x. s ! k \<le> x) s) =
      length (filter (\<lambda>x. s ! k \<le> x) (take k s))
      + length (filter (\<lambda>x. s ! k \<le> x) (drop k s))"
    by (metis filter_append length_append)
  ultimately show ?thesis
    by simp
qed

lemma median_middle:
  assumes "length vals = 63"
  shows "median vals \<in> set vals"
    and "32 \<le> length (filter (\<lambda>x. x \<le> median vals) vals)"
    and "32 \<le> length (filter (\<lambda>x. median vals \<le> x) vals)"
proof -
  have m: "median vals = sort vals ! 31"
    using assms by (simp add: median_def)
  have len: "31 < length (sort vals)"
    using assms by simp
  from len have "sort vals ! 31 \<in> set (sort vals)"
    by (rule nth_mem)
  then show "median vals \<in> set vals"
    by (simp add: m)
  have "Suc 31 \<le> length (filter (\<lambda>x. x \<le> sort vals ! 31) (sort vals))"
    using len by (intro sorted_nth_count_le) simp_all
  then show "32 \<le> length (filter (\<lambda>x. x \<le> median vals) vals)"
    by (simp add: m length_filter_sort)
  have "length (sort vals) - 31 \<le> length (filter (\<lambda>x. sort vals ! 31 \<le> x) (sort vals))"
    using len by (intro sorted_nth_count_ge) simp_all
  then show "32 \<le> length (filter (\<lambda>x. median vals \<le> x) vals)"
    using assms by (simp add: m length_filter_sort)
qed

lemma upt_0_8: "[0..<8] = [0, 1, 2, 3, 4, 5, 6, 7 :: nat]"
  by code_simp

lemma upt_1_64:
  "[1..<64] = [1..<8] @ [8..<16] @ [16..<24] @ [24..<32] @ [32..<40] @ [40..<48]
     @ [48..<56] @ [56..<64]"
  by code_simp

lemma upt_rows:
  "[1..<8] = [1, 2, 3, 4, 5, 6, 7 :: nat]"
  "[8..<16] = [8, 9, 10, 11, 12, 13, 14, 15 :: nat]"
  "[16..<24] = [16, 17, 18, 19, 20, 21, 22, 23 :: nat]"
  "[24..<32] = [24, 25, 26, 27, 28, 29, 30, 31 :: nat]"
  "[32..<40] = [32, 33, 34, 35, 36, 37, 38, 39 :: nat]"
  "[40..<48] = [40, 41, 42, 43, 44, 45, 46, 47 :: nat]"
  "[48..<56] = [48, 49, 50, 51, 52, 53, 54, 55 :: nat]"
  "[56..<64] = [56, 57, 58, 59, 60, 61, 62, 63 :: nat]"
  by code_simp+

lemma lowFreq_scan:
  "lowFreq d = map (\<lambda>k. d ! (k div 8) ! (k mod 8)) [1..<64]"
  unfolding upt_1_64 upt_rows lowFreq_def upt_0_8
  by simp

lemma length_lowFreq: "length (lowFreq d) = 63"
  by (simp add: lowFreq_scan)


lemma binaryToHex_Nil: "binaryToHex [] = []"
  by (simp add: binaryToHex.simps)

lemma binaryToHex_chunk:
  "binaryToHex (a # b # c # d # rest) =
     numToString16 (parseInt2 [a, b, c, d]) @ binaryToHex rest"
  by (subst binaryToHex.simps) (simp add: padEnd_def)

lemma binary_digit_cases: "isBinaryDigit c \<Longrightarrow> c = CHR ''0'' \<or> c = CHR ''1''"
  by (simp add: isBinaryDigit_def)

lemma nibble_roundtrip:
  assumes "isBinaryDigit a" "isBinaryDigit b" "isBinaryDigit c" "isBinaryDigit d"
  shows "\<exists>h. numToString16 (parseInt2 [a, b, c, d]) = [h] \<and> h \<in> lowerHex
            \<and> hexBits h = [a, b, c, d]"
  using assms(1)[THEN binary_digit_cases] assms(2)[THEN binary_digit_cases]
    assms(3)[THEN binary_digit_cases] assms(4)[THEN binary_digit_cases]
  by (elim disjE; simp add: parseInt2_def isBinaryDigit_def numToString16_def
      toString16.simps hexDigit_def hexBits_values lowerHex_def)

lemma binaryToHex_roundtrip:
  assumes "length bs = 4 * n" and "\<forall>c\<in>set bs. isBinaryDigit c"
  shows "hexToBinary (binaryToHex bs) = bs \<and> length (binaryToHex bs) = n
           \<and> set (binaryToHex bs) \<subseteq> lowerHex"
  using assms
proof (induction n arbitrary: bs)
  case 0
  then show ?case by (simp add: binaryToHex_Nil hexToBinary_Nil)
next
  case (Suc n)
  from Suc.prems(1) obtain a b c d rest where bs: "bs = a # b # c # d # rest"
    and rest: "length rest = 4 * n"
    by (cases bs; simp; rename_tac xs; case_tac xs; simp; rename_tac ys; case_tac ys; simp;
        rename_tac zs; case_tac zs; simp)
  from Suc.prems(2) bs obtain h where h: "numToString16 (parseInt2 [a, b, c, d]) = [h]"
    "h \<in> lowerHex" "hexBits h = [a, b, c, d]"
    using nibble_roundtrip[of a b c d] by auto
  from Suc.prems(2) bs have "\<forall>c\<in>set rest. isBinaryDigit c"
    by simp
  with rest have IH: "hexToBinary (binaryToHex rest) = rest" "length (binaryToHex rest) = n"
    "set (binaryToHex rest) \<subseteq> lowerHex"
    using Suc.IH by blast+
  show ?case
    using h IH by (simp add: bs binaryToHex_chunk hexToBinary_Cons)
qed


lemma length_hashBits: "length (hashBits vals) = length vals"
  by (simp add: hashBits_def)

lemma hashBits_binary: "\<forall>c\<in>set (hashBits vals). isBinaryDigit c"
  by (auto simp: hashBits_def isBinaryDigit_def)

lemma padded_hash:
  assumes "length vals = 63"
  shows "take 64 (padEnd 64 (CHR ''0'') (hashBits vals)) = hashBits vals @ [CHR ''0'']"
  using assms by (simp add: padEnd_def length_hashBits)

text \<open>The hash of a black image.\<close>

lemma grayPixels_black:
  assumes "y < 32" and "x < 32"
  shows "grayPixels (replicate 4096 0) 32 ! y ! x = 0"
proof -
  have "(y * 32 + x) * 4 + 2 < 4096"
    using assms by simp
  then show ?thesis
    using assms by (simp add: grayPixels_def Let_def)
qed

lemma dctSum_zero:
  assumes "\<And>x y. x < sz \<Longrightarrow> y < sz \<Longrightarrow> pixels ! x ! y = 0"
  shows "dctSum pixels sz u v = 0"
proof -
  have "dctSum pixels sz u v = (\<Sum>x\<leftarrow>[0..<sz]. \<Sum>y\<leftarrow>[0..<sz]. 0)"
    unfolding dctSum_def
    by (intro arg_cong[where f=sum_list] map_cong refl) (simp add: assms)
  then show ?thesis by simp
qed

lemma lowFreq_black:
  "lowFreq (computeDCT (grayPixels (replicate 4096 0) 32) 32) = replicate 63 0"
proof -
  let ?d = "computeDCT (grayPixels (replicate 4096 0) 32) 32"
  have z: "?d ! u ! v = 0" if "u < 32" "v < 32" for u v
    using that by (simp add: computeDCT_nth dctSum_zero grayPixels_black)
  have "map (\<lambda>k. ?d ! (k div 8) ! (k mod 8)) [1..<64] = map (\<lambda>k. 0) [1..<64]"
  proof (rule map_cong[OF refl])
    fix k :: nat assume "k \<in> set [1..<64]"
    then have "k div 8 < 32" "k mod 8 < 32" by auto
    then show "?d ! (k div 8) ! (k mod 8) = 0" by (rule z)
  qed
  then show ?thesis
    by (simp add: lowFreq_scan map_replicate_const)
qed

lemma median_replicate: "k div 2 < k \<Longrightarrow> median (replicate k c) = c"
proof -
  assume "k div 2 < k"
  moreover have "sort (replicate k c) = replicate k c"
    by (rule sorted_sort_id) simp
  ultimately show ?thesis
    by (simp add: median_def)
qed

lemma binaryToHex_zeros:
  "binaryToHex (replicate (4 * n) (CHR ''0'')) = replicate n (CHR ''0'')"
proof (induction n)
  case 0
  then show ?case by (simp add: binaryToHex_Nil)
next
  case (Suc n)
  have "replicate (4 * Suc n) (CHR ''0'') = replicate 4 (CHR ''0'') @ replicate (4 * n) (CHR ''0'')"
    by (simp flip: replicate_add)
  also have "replicate 4 (CHR ''0'') = ''0000''"
    by (simp add: numeral_eq_Suc)
  finally have "replicate (4 * Suc n) (CHR ''0'')
      = CHR ''0'' # CHR ''0'' # CHR ''0'' # CHR ''0'' # replicate (4 * n) (CHR ''0'')"
    by simp
  moreover have "numToString16 (parseInt2 ''0000'') = ''0''"
    by (simp add: parseInt2_def isBinaryDigit_def numToString16_def toString16.simps hexDigit_def)
  ultimately show ?case
    using Suc.IH by (simp only: binaryToHex_chunk) simp
qed

lemma computePHash_black:
  "computePHashGray (grayPixels (replicate 4096 0) 32) = ''0000000000000000''"
proof -
  have "hashBits (replicate 63 (0::real)) = replicate 63 (CHR ''0'')"
    by (simp add: hashBits_def median_replicate map_replicate_const)
  moreover have "replicate 63 (CHR ''0'') @ [CHR ''0''] = replicate (4 * 16) (CHR ''0'')"
  proof -
    have "replicate 63 (CHR ''0'') @ [CHR ''0''] = replicate (Suc 63) (CHR ''0'')"
      by (simp only: replicate_append_same replicate_Suc)
    then show ?thesis by simp
  qed
  ultimately have "take 64 (padEnd 64 (CHR ''0'') (hashBits (replicate 63 (0::real))))
      = replicate (4 * 16) (CHR ''0'')"
    by (simp add: padEnd_def)
  then have "computePHashGray (grayPixels (replicate 4096 0) 32) = replicate 16 (CHR ''0'')"
    by (simp only: computePHashGray_def Let_def lowFreq_black binaryToHex_zeros)
  also have "replicate 16 (CHR ''0'') = ''0000000000000000''"
    by code_simp
  finally show ?thesis .
qed

text \<open>
  Claim C3.  For a 32 by 32 grayscale matrix, the hash is built from the 63 coefficients of
  the top-left 8 by 8 block of its DCT, taken row by row without the DC term.  Their median
  is one of them, with at least 32 of them not above and at least 32 not below it.  The hash
  is a string of 16 hexadecimal digits; read back as 64 binary digits, digit \<open>k < 63\<close> is 1
  exactly when coefficient \<open>k\<close> exceeds the median, and the last digit is the 0 appended
  as padding.
\<close>

theorem computePHash_median_bits:
  assumes "length gray = 32" and "\<forall>row\<in>set gray. length row = 32"
  shows "length (lowFreq (computeDCT gray 32)) = 63
     \<and> lowFreq (computeDCT gray 32)
         = map (\<lambda>k. computeDCT gray 32 ! (k div 8) ! (k mod 8)) [1..<64]
     \<and> median (lowFreq (computeDCT gray 32)) \<in> set (lowFreq (computeDCT gray 32))
     \<and> 32 \<le> length (filter (\<lambda>x. x \<le> median (lowFreq (computeDCT gray 32)))
                  (lowFreq (computeDCT gray 32)))
     \<and> 32 \<le> length (filter (\<lambda>x. median (lowFreq (computeDCT gray 32)) \<le> x)
                  (lowFreq (computeDCT gray 32)))
     \<and> length (computePHashGray gray) = 16
     \<and> set (computePHashGray gray) \<subseteq> lowerHex
     \<and> length (hexToBinary (computePHashGray gray)) = 64
     \<and> (\<forall>k<63. hexToBinary (computePHashGray gray) ! k
           = (if lowFreq (computeDCT gray 32) ! k > median (lowFreq (computeDCT gray 32))
              then CHR ''1'' else CHR ''0''))
     \<and> hexToBinary (computePHashGray gray) ! 63 = CHR ''0''"
proof -
  let ?co = "lowFreq (computeDCT gray 32)"
  let ?bits = "hashBits ?co @ [CHR ''0'']"
  have len: "length ?co = 63"
    by (rule length_lowFreq)
  have h: "computePHashGray gray = binaryToHex ?bits"
    by (simp add: computePHashGray_def Let_def padded_hash[OF len])
  have "length ?bits = 4 * 16"
    by (simp add: length_hashBits len)
  moreover have "\<forall>c\<in>set ?bits. isBinaryDigit c"
    using hashBits_binary[of ?co] by (simp add: isBinaryDigit_def)
  ultimately have rt: "hexToBinary (binaryToHex ?bits) = ?bits"
    "length (binaryToHex ?bits) = 16" "set (binaryToHex ?bits) \<subseteq> lowerHex"
    using binaryToHex_roundtrip[of ?bits 16] by blast+
  have bitk: "?bits ! k = (if ?co ! k > median ?co then CHR ''1'' else CHR ''0'')" if "k < 63" for k
    using that len by (simp add: nth_append length_hashBits hashBits_def)
  have last: "?bits ! 63 = CHR ''0''"
    using len by (simp add: nth_append length_hashBits)
  show ?thesis
    using len lowFreq_scan[of "computeDCT gray 32"] median_middle[OF len] rt bitk last
    by (simp add: h length_hashBits)
qed

theorem computePHash_median_bits_witness:
  "length (grayPixels (replicate 4096 0) 32) = 32
   \<and> list_all (\<lambda>row. length row = 32) (grayPixels (replicate 4096 0) 32)
   \<and> computePHashGray (grayPixels (replicate 4096 0) 32) = ''0000000000000000''
   \<and> median (lowFreq (computeDCT (grayPixels (replicate 4096 0) 32) 32)) = 0
   \<and> length (hexToBinary (computePHashGray (grayPixels (replicate 4096 0) 32))) = 64
   \<and> hexToBinary (computePHashGray (grayPixels (replicate 4096 0) 32)) ! 63 = CHR ''0''"
proof -
  have h1: "length (grayPixels (replicate 4096 0) 32) = 32"
    by (simp add: grayPixels_def)
  have h2: "\<forall>row\<in>set (grayPixels (replicate 4096 0) 32). length row = 32"
    by (auto simp: grayPixels_def)
  have m: "median (lowFreq (computeDCT (grayPixels (replicate 4096 0) 32) 32)) = 0"
    by (simp add: lowFreq_black median_replicate)
  from computePHash_median_bits [OF h1 h2]
  have "length (hexToBinary (computePHashGray (grayPixels (replicate 4096 0) 32))) = 64"
    and "hexToBinary (computePHashGray (grayPixels (replicate 4096 0) 32)) ! 63 = CHR ''0''"
    by blast+
  with h1 h2 m computePHash_black show ?thesis
    by (simp only: list_all_iff simp_thms)
qed

subsection \<open>Scoring and aggregation\<close>

text \<open>\<open>includesStr\<close> is the substring test, and the bonus takes its three values.\<close>

lemma includesStr_sublist: "includesStr s t \<longleftrightarrow> sublist t s"
proof
  assume "includesStr s t"
  then obtain i where i: "take (length t) (drop i s) = t"
    unfolding includesStr_def list_ex_iff by blast
  have "s = take i s @ drop i s"
    by simp
  also have "drop i s = take (length t) (drop i s) @ drop (length t) (drop i s)"
    by (simp only: append_take_drop_id)
  finally have "s = take i s @ take (length t) (drop i s) @ drop (length t) (drop i s)" .
  with i have "s = take i s @ t @ drop (length t) (drop i s)"
    by simp
  then show "sublist t s"
    unfolding sublist_def by blast
next
  assume "sublist t s"
  then obtain ps ss where s: "s = ps @ t @ ss"
    unfolding sublist_def by blast
  then have "length ps \<le> length s" "take (length t) (drop (length ps) s) = t"
    by simp_all
  then have "\<exists>i\<in>set [0..<Suc (length s)]. take (length t) (drop i s) = t"
    by (intro bexI[of _ "length ps"]) auto
  then show "includesStr s t"
    unfolding includesStr_def list_ex_iff .
qed

lemma metadataBonusOf_values:
  "metadataBonusOf (Some ''TGS 2026'') (Some ''TGS'') = 0.1"
  "metadataBonusOf (Some ''TGS'') (Some ''TGS'') = 0.2"
  "metadataBonusOf (Some ''TGS'') (Some ''C99'') = 0"
  "metadataBonusOf None (Some ''TGS'') = 0"
  by (simp_all add: metadataBonusOf_def truthy_def includesStr_def)

























subsection \<open>Lazy initialisation\<close>

lemma storeInv_init: "storeInv (newVectorStore, [])"
  by (simp add: storeInv_def newVectorStore_def)

lemma storeInv_step: "storeInv c \<Longrightarrow> storeInv (storeStep c e)"
  by (cases c; cases e) (auto simp: storeInv_def init_def split: if_splits option.splits)

lemma storeRun_snoc: "storeRun (es @ [e]) = storeStep (storeRun es) e"
  by (simp add: storeRun_def)

lemma storeInv_run: "storeInv (storeRun es)"
proof (induction es rule: rev_induct)
  case Nil
  then show ?case by (simp add: storeRun_def storeInv_init)
next
  case (snoc e es)
  then show ?case by (simp add: storeRun_snoc storeInv_step)
qed

lemma clipInv_init: "clipInv 0 (newClipModule, [])"
  by (simp add: clipInv_def newClipModule_def)

lemma clipInv_step:
  "clipInv f c \<Longrightarrow> clipInv (if e = Failure then Suc f else f) (clipStep c e)"
  by (cases c; cases e)
    (auto simp: clipInv_def initCLIP_def less_Suc_eq split: if_splits option.splits)

lemma clipRun_snoc: "clipRun (es @ [e]) = clipStep (clipRun es) e"
  by (simp add: clipRun_def)

lemma clipInv_run: "clipInv (failures es) (clipRun es)"
proof (induction es rule: rev_induct)
  case Nil
  then show ?case by (simp add: clipRun_def clipInv_init failures_def)
next
  case (snoc e es)
  have "failures (es @ [e]) = (if e = Failure then Suc (failures es) else failures es)"
    by (simp add: failures_def)
  with clipInv_step[OF snoc.IH, of e] show ?case
    by (simp only: clipRun_snoc)
qed

text \<open>
  Claim C8.  After any interleaving of calls and completions, the store has issued at most
  one \<^verbatim>\<open>indexedDB.open\<close>, and every caller was either answered at once, which happens
  only when the handle is set, or handed the promise of that one request.  The CLIP module
  starts a load only when none is in flight: a caller that arrives during a load is handed
  the promise of that load, the number of loads started exceeds the number of failed ones by
  at most one, and when no load has failed there is a single load whose promise every waiting
  caller shares.
\<close>

theorem lazy_init_single_attempt:
  "(case storeRun es of (s, as) \<Rightarrow>
      opened s \<le> 1
      \<and> (\<forall>a\<in>set as. a = Ready \<or> a = Pending 0)
      \<and> (Ready \<in> set as \<longrightarrow> db s))
   \<and> (case clipRun es' of (s, as) \<Rightarrow>
      loads s \<le> Suc (failures es')
      \<and> (isLoading s \<longrightarrow> initCLIP s = (s, Pending (loads s - 1)))
      \<and> (\<forall>a\<in>set as. a = Ready \<or> (\<exists>p<loads s. a = Pending p))
      \<and> (Ready \<in> set as \<longrightarrow> embeddingPipeline s)
      \<and> (failures es' = 0 \<longrightarrow> loads s \<le> 1 \<and> (\<forall>a\<in>set as. a = Ready \<or> a = Pending 0)))"
proof -
  obtain s as where sr: "storeRun es = (s, as)" by (cases "storeRun es")
  obtain t bs where cr: "clipRun es' = (t, bs)" by (cases "clipRun es'")
  from storeInv_run[of es] sr have 1: "opened s \<le> 1"
    "\<forall>a\<in>set as. a = Ready \<or> a = Pending 0" "Ready \<in> set as \<longrightarrow> db s"
    by (simp_all add: storeInv_def)
  from clipInv_run[of es'] cr have 2: "loads t \<le> Suc (failures es')"
    "isLoading t \<longrightarrow> \<not> embeddingPipeline t \<and> 0 < loads t \<and> loadingPromise t = Some (loads t - 1)"
    "\<forall>a\<in>set bs. a = Ready \<or> (\<exists>p<loads t. a = Pending p)"
    "Ready \<in> set bs \<longrightarrow> embeddingPipeline t"
    by (auto simp: clipInv_def split: if_splits)
  from 2(2) have 3: "isLoading t \<longrightarrow> initCLIP t = (t, Pending (loads t - 1))"
    by (simp add: initCLIP_def)
  have 4: "loads t \<le> 1 \<and> (\<forall>a\<in>set bs. a = Ready \<or> a = Pending 0)" if "failures es' = 0"
    using 2(1,3) that by (auto simp: less_Suc_eq_le)
  from 1 2 3 4 show ?thesis
    by (simp add: sr cr)
qed

theorem lazy_init_single_attempt_witness:
  "snd (storeRun [CallInit, CallInit, Success, CallInit]) = [Pending 0, Pending 0, Ready]
   \<and> opened (fst (storeRun [CallInit, CallInit, Success, CallInit])) = 1
   \<and> snd (storeRun [CallInit, Failure, CallInit]) = [Pending 0, Pending 0]
   \<and> snd (clipRun [CallInit, CallInit, Success, CallInit]) = [Pending 0, Pending 0, Ready]
   \<and> loads (fst (clipRun [CallInit, CallInit, Success, CallInit])) = 1
   \<and> failures [CallInit, CallInit, Success, CallInit] = 0
   \<and> snd (clipRun [CallInit, CallInit, Failure, CallInit, CallInit])
        = [Pending 0, Pending 0, Pending 1, Pending 1]"
  using lazy_init_single_attempt
    [of "[CallInit, CallInit, Success, CallInit]" "[CallInit, CallInit, Success, CallInit]"]
  by (simp add: storeRun_def clipRun_def init_def initCLIP_def newVectorStore_def
      newClipModule_def failures_def)

end
